theory Spec2Isabelle
  imports Main "HOL-Library.Sublist"
begin

section \<open>Strings and exceptions\<close>

text \<open>
  A Python \<open>str\<close> is a sequence of Unicode code points and is modelled as a list of
  natural numbers, one per code point. \<open>str\<close> turns a literal into such a list and
  \<open>cp\<close> a character into its code point. Logging calls have no effect on results or
  files and are left out.
\<close>

type_synonym pystr = "nat list"

abbreviation str :: "string \<Rightarrow> pystr" where
  "str s \<equiv> map of_char s"

abbreviation cp :: "char \<Rightarrow> nat" where
  "cp c \<equiv> of_char c"

datatype exn =
    ValueError | OSError | LookupError
  | Timeout | HTTPError | RequestException | OtherException

text \<open>\<open>s.find(c)\<close>, \<open>s.find(c, start)\<close> and \<open>s.rfind(c)\<close>: an index, or \<open>-1\<close>.\<close>

definition find_from :: "nat \<Rightarrow> nat \<Rightarrow> pystr \<Rightarrow> int" where
  "find_from c start s =
     (if c \<in> set (drop start s)
      then int start + int (length (takeWhile (\<lambda>x. x \<noteq> c) (drop start s)))
      else - 1)"

definition find :: "nat \<Rightarrow> pystr \<Rightarrow> int" where
  "find c s = find_from c 0 s"

definition rfind :: "nat \<Rightarrow> pystr \<Rightarrow> int" where
  "rfind c s =
     (if c \<in> set s
      then int (length s) - 1 - int (length (takeWhile (\<lambda>x. x \<noteq> c) (rev s)))
      else - 1)"

text \<open>\<open>s.split(sep)\<close> for a one-character separator.\<close>

fun split_on :: "nat \<Rightarrow> pystr \<Rightarrow> pystr list" where
  "split_on sep [] = [[]]"
| "split_on sep (c # cs) =
     (if c = sep then [] # split_on sep cs
      else (case split_on sep cs of
              [] \<Rightarrow> [[c]]
            | w # ws \<Rightarrow> (c # w) # ws))"

text \<open>\<open>s.lstrip(chars)\<close> and \<open>s.strip(chars)\<close>.\<close>

definition lstrip :: "pystr \<Rightarrow> pystr \<Rightarrow> pystr" where
  "lstrip chars s = dropWhile (\<lambda>c. c \<in> set chars) s"

definition strip :: "pystr \<Rightarrow> pystr \<Rightarrow> pystr" where
  "strip chars s = rev (lstrip chars (rev (lstrip chars s)))"

text \<open>
  \<open>re.sub(r'[...]+', repl, s)\<close> for a pattern that is one character class under \<open>+\<close>:
  scanning from the left, a character of the class starts a match that takes every
  following character of the class (the match is greedy); the match is replaced by
  \<open>repl\<close> and the scan goes on behind it.
\<close>

function re_sub_class_plus :: "(nat \<Rightarrow> bool) \<Rightarrow> pystr \<Rightarrow> pystr \<Rightarrow> pystr" where
  "re_sub_class_plus cls repl [] = []"
| "re_sub_class_plus cls repl (c # cs) =
     (if cls c then repl @ re_sub_class_plus cls repl (dropWhile cls cs)
      else c # re_sub_class_plus cls repl cs)"
  by pat_completeness auto
termination
  by (relation "measure (\<lambda>(cls, repl, s). length s)")
     (auto simp: less_Suc_eq_le length_dropWhile_le)

section \<open>utils.py: sanitize_filename_component\<close>

definition safe_chars :: pystr where
  "safe_chars = str ''abcdefghijklmnopqrstuvwxyzABCDEFGHIJKLMNOPQRSTUVWXYZ0123456789._-''"

definition sanitize_filename_component :: "pystr \<Rightarrow> pystr" where
  "sanitize_filename_component name0 =
     (if name0 = [] then str ''untitled''
      else
        let name1 = re_sub_class_plus (\<lambda>c. c \<notin> set safe_chars) (str ''_'') name0;
            name2 = strip (str ''._'') name1;
            name3 = re_sub_class_plus (\<lambda>c. c = cp (CHR ''_'')) (str ''_'') name2
        in if name3 = [] \<or> list_all (\<lambda>c. c \<in> set (str ''._'')) name3 then str ''untitled''
           else name3)"

section \<open>The standard library: urllib.parse.urlparse\<close>

text \<open>
  \<open>urlparse\<close> as CPython 3.11 has it (\<open>urlsplit\<close>, then the split of the parameters),
  reduced to the two fields that \<open>derive_filename_from_url\<close> reads. It raises
  \<open>ValueError\<close> in three places: on unmatched square brackets in the network location;
  when both brackets are there and the text between them is not accepted as an IP address;
  and in \<open>_checknetloc\<close>, when a network location with a non-ASCII code point contains
  one of \<open>/ ? # @ :\<close> after NFKC normalization. Two functions of other library modules
  are parameters: \<open>check_bracketed_host\<close> says whether \<open>_check_bracketed_host\<close> (the
  \<open>ipaddress\<close> module) returns without raising, and \<open>normalize_nfkc\<close> is
  \<open>unicodedata.normalize('NFKC', s)\<close>.
\<close>

record stdlib =
  check_bracketed_host :: "pystr \<Rightarrow> bool"
  normalize_nfkc :: "pystr \<Rightarrow> pystr"

text \<open>
  The library used for the closed examples, all of them ASCII strings without a bracketed
  host: on ASCII strings NFKC normalization is the identity.
\<close>

definition plain_stdlib :: stdlib where
  "plain_stdlib = \<lparr>check_bracketed_host = (\<lambda>host. True), normalize_nfkc = (\<lambda>s. s)\<rparr>"

record parse_result =
  netloc :: pystr
  path :: pystr

definition isascii :: "pystr \<Rightarrow> bool" where
  "isascii s = list_all (\<lambda>c. c < 128) s"

definition c0_control_or_space :: "nat \<Rightarrow> bool" where
  "c0_control_or_space c = (c \<le> 32)"

definition scheme_chars :: pystr where
  "scheme_chars = str ''abcdefghijklmnopqrstuvwxyzABCDEFGHIJKLMNOPQRSTUVWXYZ0123456789+-.''"

definition ascii_alpha :: "nat \<Rightarrow> bool" where
  "ascii_alpha c = (c \<in> set (str ''abcdefghijklmnopqrstuvwxyzABCDEFGHIJKLMNOPQRSTUVWXYZ''))"

definition lower_char :: "nat \<Rightarrow> nat" where
  "lower_char c =
     (if c \<in> set (str ''ABCDEFGHIJKLMNOPQRSTUVWXYZ'') then c + 32 else c)"

definition uses_params :: "pystr list" where
  "uses_params = [[], str ''ftp'', str ''hdl'', str ''prospero'', str ''http'', str ''imap'',
                  str ''https'', str ''shttp'', str ''rtsp'', str ''rtsps'', str ''rtspu'', str ''sip'',
                  str ''sips'', str ''mms'', str ''sftp'', str ''tel'']"

text \<open>\<open>_splitnetloc(url, 2)\<close>: the network location ends at the first of \<open>/ ? #\<close>.\<close>

definition splitnetloc :: "pystr \<Rightarrow> pystr \<times> pystr" where
  "splitnetloc url =
     (let is_delim = (\<lambda>c. c \<in> set (str ''/?#''))
      in (takeWhile (\<lambda>c. \<not> is_delim c) (drop 2 url),
          dropWhile (\<lambda>c. \<not> is_delim c) (drop 2 url)))"

text \<open>\<open>netloc.partition('[')[2].partition(']')[0]\<close>.\<close>

definition bracketed_host :: "pystr \<Rightarrow> pystr" where
  "bracketed_host nl =
     takeWhile (\<lambda>c. c \<noteq> cp (CHR '']'')) (drop 1 (dropWhile (\<lambda>c. c \<noteq> cp (CHR ''['')) nl))"

text \<open>The first element of \<open>_splitparams(url)\<close>, called when \<open>';' in url\<close>.\<close>

definition splitparams :: "pystr \<Rightarrow> pystr" where
  "splitparams url =
     (if cp (CHR ''/'') \<in> set url then
        (let i = find_from (cp (CHR '';'')) (nat (rfind (cp (CHR ''/'')) url)) url
         in if i < 0 then url else take (nat i) url)
      else take (nat (find (cp (CHR '';'')) url)) url)"

text \<open>
  \<open>_checknetloc(netloc)\<close>: \<open>True\<close> when it raises. The four \<open>replace\<close> calls delete
  the characters \<open>@ : # ?\<close>.
\<close>

definition checknetloc_raises :: "stdlib \<Rightarrow> pystr \<Rightarrow> bool" where
  "checknetloc_raises lib nl =
     (if nl = [] \<or> isascii nl then False
      else
        let n = filter (\<lambda>c. c \<notin> set (str ''@:#?'')) nl;
            netloc2 = normalize_nfkc lib n
        in if n = netloc2 then False
           else list_ex (\<lambda>c. c \<in> set netloc2) (str ''/?#@:''))"

definition urlparse :: "stdlib \<Rightarrow> pystr \<Rightarrow> exn + parse_result" where
  "urlparse lib url0 =
     (let url1 = dropWhile c0_control_or_space url0;
          url2 = filter (\<lambda>c. c \<notin> set [9, 13, 10]) url1;
          i = find (cp (CHR '':'')) url2;
          has_scheme = (i > 0 \<and> ascii_alpha (hd url2)
                        \<and> list_all (\<lambda>c. c \<in> set scheme_chars) (take (nat i) url2));
          scheme = (if has_scheme then map lower_char (take (nat i) url2) else []);
          url3 = (if has_scheme then drop (nat i + 1) url2 else url2);
          has_netloc = (take 2 url3 = str ''//'');
          nl = (if has_netloc then fst (splitnetloc url3) else []);
          url4 = (if has_netloc then snd (splitnetloc url3) else url3)
      in
        if has_netloc \<and>
           ((cp (CHR ''['') \<in> set nl \<and> cp (CHR '']'') \<notin> set nl) \<or>
            (cp (CHR '']'') \<in> set nl \<and> cp (CHR ''['') \<notin> set nl))
        then Inl ValueError
        else if has_netloc \<and> cp (CHR ''['') \<in> set nl \<and> cp (CHR '']'') \<in> set nl
                \<and> \<not> check_bracketed_host lib (bracketed_host nl)
        then Inl ValueError
        else
          let url5 = takeWhile (\<lambda>c. c \<noteq> cp (CHR ''#'')) url4;
              url6 = takeWhile (\<lambda>c. c \<noteq> cp (CHR ''?'')) url5
          in
            if checknetloc_raises lib nl then Inl ValueError
            else
              let url7 = (if scheme \<in> set uses_params \<and> cp (CHR '';'') \<in> set url6
                          then splitparams url6 else url6)
              in Inr \<lparr>netloc = nl, path = url7\<rparr>)"

section \<open>The standard library: pathlib.Path on POSIX\<close>

text \<open>
  \<open>Path(s)\<close> for one string, as CPython 3.11 parses it on POSIX: the root is \<open>//\<close> for
  exactly two leading slashes and \<open>/\<close> for any other number of them; the remainder is
  split at \<open>/\<close> and the empty and \<open>.\<close> pieces are dropped. \<open>parts\<close> starts with the
  root when there is one.
\<close>

record pure_path =
  root :: pystr
  parts :: "pystr list"

definition splitroot :: "pystr \<Rightarrow> pystr \<times> pystr" where
  "splitroot part =
     (if part \<noteq> [] \<and> hd part = cp (CHR ''/'') then
        (let stripped_part = lstrip (str ''/'') part
         in if length part - length stripped_part = 2 then (str ''//'', stripped_part)
            else (str ''/'', stripped_part))
      else ([], part))"

definition Path :: "pystr \<Rightarrow> pure_path" where
  "Path s =
     (if s = [] then \<lparr>root = [], parts = []\<rparr>
      else
        let rt = fst (splitroot s);
            rel = snd (splitroot s);
            parsed = filter (\<lambda>x. x \<noteq> [] \<and> x \<noteq> str ''.'') (split_on (cp (CHR ''/'')) rel)
        in \<lparr>root = rt, parts = (if rt \<noteq> [] then [rt] else []) @ parsed\<rparr>)"

definition name :: "pure_path \<Rightarrow> pystr" where
  "name p =
     (if length (parts p) = (if root p \<noteq> [] then 1 else 0) then []
      else last (parts p))"

definition stem :: "pure_path \<Rightarrow> pystr" where
  "stem p =
     (let nm = name p; i = rfind (cp (CHR ''.'')) nm
      in if 0 < i \<and> i < int (length nm) - 1 then take (nat i) nm else nm)"

section \<open>utils.py: derive_filename_from_url\<close>

text \<open>
  Lines 23 to 44 of the function: the name base chosen from the parsed URL.
\<close>

definition name_base_of :: "parse_result \<Rightarrow> pystr" where
  "name_base_of parsed_url =
     (let path_obj = Path (path parsed_url);
          name_base0 = stem path_obj;
          name_base = (if take 1 name_base0 = str ''.'' then drop 1 name_base0 else name_base0)
      in
        if name_base = [] \<or> name_base = str ''/'' then
          (let path_segments = filter (\<lambda>seg. seg \<noteq> [] \<and> seg \<noteq> str ''/'') (parts path_obj)
           in if path_segments \<noteq> [] then
                (let name_base_segment = last path_segments;
                     name_base_segment_stem = stem (Path name_base_segment)
                 in if name_base_segment_stem \<noteq> [] \<and> take 1 name_base_segment_stem \<noteq> str ''.''
                    then name_base_segment_stem
                    else if take 1 name_base_segment_stem = str ''.''
                    then drop 1 name_base_segment_stem
                    else name_base_segment)
              else if netloc parsed_url = [] then str ''untitled_url''
              else netloc parsed_url)
        else name_base)"

definition max_len_base :: nat where
  "max_len_base = 50"

definition derive_filename_from_url ::
    "stdlib \<Rightarrow> pystr \<Rightarrow> pystr \<Rightarrow> exn + pystr" where
  "derive_filename_from_url lib url_str extension =
     (case urlparse lib url_str of
        Inl e \<Rightarrow> Inl e
      | Inr parsed_url \<Rightarrow>
          Inr (take max_len_base (sanitize_filename_component (name_base_of parsed_url))
               @ extension))"

section \<open>chunk\_processor.py: save_chunks_to_dir\<close>

text \<open>
  The directory is a map from paths to the text written to them. \<open>output_dir\<close> stands
  for the \<open>/\<close> operator of the directory's \<open>Path\<close>: it takes a file name to a path.
  The deriver is a callable and may raise. What the operating system does when the file
  of chunk \<open>i\<close> is opened and written is the parameter \<open>io i\<close>: the write succeeds;
  or \<open>open\<close> raises before the file exists (a missing directory, a refused
  permission); or an exception is raised once \<open>open\<close> has created or truncated the
  file (an unknown \<open>encoding\<close> makes \<open>open\<close> itself raise \<open>LookupError\<close> at that
  point; a full disk makes \<open>write\<close> raise), which leaves the file with the part of the
  text, possibly empty, that reached it.
\<close>

datatype io_outcome =
    Written
  | RaisesBeforeCreate exn
  | RaisesAfterCreate exn pystr

text \<open>The decimal digits of \<open>f"{n}"\<close>; the code point of the digit \<open>d\<close> is \<open>48 + d\<close>.\<close>

fun str_of_nat :: "nat \<Rightarrow> pystr" where
  "str_of_nat n =
     (if n < 10 then [48 + n]
      else str_of_nat (n div 10) @ [48 + n mod 10])"

declare str_of_nat.simps [simp del]

definition actual_extension :: "pystr \<Rightarrow> pystr" where
  "actual_extension file_extension =
     (if take 1 file_extension = str ''.'' then file_extension else str ''.'' @ file_extension)"

text \<open>
  The first half of the loop body: the deriver's name, the fallback for an empty name,
  the extension and the path. \<open>Inl\<close> is an exception of the deriver.
\<close>

definition output_file_path ::
    "(pystr \<Rightarrow> 'p) \<Rightarrow> (pystr \<Rightarrow> nat \<Rightarrow> exn + pystr) \<Rightarrow> pystr \<Rightarrow> nat \<Rightarrow> pystr
     \<Rightarrow> exn + 'p" where
  "output_file_path output_dir filename_deriver file_extension i chunk_content =
     (case filename_deriver chunk_content i of
        Inl e \<Rightarrow> Inl e
      | Inr derived \<Rightarrow>
          let base_filename =
                (if derived = [] then str ''chapter_'' @ str_of_nat (i + 1) else derived)
          in Inr (output_dir (base_filename @ actual_extension file_extension)))"

text \<open>
  The loop body with its \<open>try\<close>/\<open>except Exception\<close>: the state is the directory and
  \<open>all_successful\<close>.
\<close>

definition save_chunk ::
    "(nat \<Rightarrow> io_outcome) \<Rightarrow> (pystr \<Rightarrow> 'p) \<Rightarrow> (pystr \<Rightarrow> nat \<Rightarrow> exn + pystr) \<Rightarrow> pystr
     \<Rightarrow> nat \<Rightarrow> pystr \<Rightarrow> ('p \<rightharpoonup> pystr) \<times> bool \<Rightarrow> ('p \<rightharpoonup> pystr) \<times> bool" where
  "save_chunk io output_dir filename_deriver file_extension i chunk_content st =
     (case output_file_path output_dir filename_deriver file_extension i chunk_content of
        Inl e \<Rightarrow> (fst st, False)
      | Inr p \<Rightarrow>
          (case io i of
             RaisesBeforeCreate e \<Rightarrow> (fst st, False)
           | RaisesAfterCreate e part \<Rightarrow> ((fst st)(p \<mapsto> part), False)
           | Written \<Rightarrow> ((fst st)(p \<mapsto> chunk_content), snd st)))"

text \<open>\<open>for i, chunk_content in enumerate(chunks)\<close>, from index \<open>i\<close> on.\<close>

fun save_loop ::
    "(nat \<Rightarrow> io_outcome) \<Rightarrow> (pystr \<Rightarrow> 'p) \<Rightarrow> (pystr \<Rightarrow> nat \<Rightarrow> exn + pystr) \<Rightarrow> pystr
     \<Rightarrow> nat \<Rightarrow> pystr list \<Rightarrow> ('p \<rightharpoonup> pystr) \<times> bool \<Rightarrow> ('p \<rightharpoonup> pystr) \<times> bool" where
  "save_loop io output_dir filename_deriver file_extension i [] st = st"
| "save_loop io output_dir filename_deriver file_extension i (c # cs) st =
     save_loop io output_dir filename_deriver file_extension (Suc i) cs
       (save_chunk io output_dir filename_deriver file_extension i c st)"

definition save_chunks_to_dir ::
    "(nat \<Rightarrow> io_outcome) \<Rightarrow> pystr list \<Rightarrow> (pystr \<Rightarrow> 'p) \<Rightarrow> (pystr \<Rightarrow> nat \<Rightarrow> exn + pystr)
     \<Rightarrow> pystr \<Rightarrow> ('p \<rightharpoonup> pystr) \<Rightarrow> ('p \<rightharpoonup> pystr) \<times> bool" where
  "save_chunks_to_dir io chunks output_dir filename_deriver file_extension fs =
     (if chunks = [] then (fs, True)
      else save_loop io output_dir filename_deriver file_extension 0 chunks (fs, True))"

text \<open>The chunk at index \<open>i\<close> is saved: the deriver returns and the write succeeds.\<close>

definition chunk_saved ::
    "(nat \<Rightarrow> io_outcome) \<Rightarrow> (pystr \<Rightarrow> nat \<Rightarrow> exn + pystr) \<Rightarrow> nat \<Rightarrow> pystr \<Rightarrow> bool" where
  "chunk_saved io filename_deriver i chunk_content =
     (case filename_deriver chunk_content i of
        Inl e \<Rightarrow> False
      | Inr derived \<Rightarrow> io i = Written)"

text \<open>
  The iteration for the chunk at index \<open>i\<close> creates or overwrites the file at \<open>p\<close>:
  \<open>p\<close> is its path and \<open>open\<close> gets as far as creating the file.
\<close>

definition writes_to ::
    "(nat \<Rightarrow> io_outcome) \<Rightarrow> (pystr \<Rightarrow> 'p) \<Rightarrow> (pystr \<Rightarrow> nat \<Rightarrow> exn + pystr) \<Rightarrow> pystr
     \<Rightarrow> nat \<Rightarrow> pystr \<Rightarrow> 'p \<Rightarrow> bool" where
  "writes_to io output_dir filename_deriver file_extension i chunk_content p =
     (output_file_path output_dir filename_deriver file_extension i chunk_content = Inr p \<and>
      (case io i of RaisesBeforeCreate e \<Rightarrow> False | _ \<Rightarrow> True))"

section \<open>save\_markdown\_from\_url.py\<close>

text \<open>
  The module \<open>extract_markdown_from_html\<close> and the network are outside this file; they
  are the fields of an environment. \<open>requests_get\<close> is the whole \<open>try\<close> block of the
  download (\<open>requests.get\<close>, \<open>raise_for_status\<close>, \<open>decode\<close>): the decoded page or the
  exception. \<open>write_original_html\<close> is the \<open>try\<close> block that saves the page, whose
  exceptions are all swallowed. \<open>save_chunks_to_path\<close> returns the exception it raised,
  if any. The state records the URLs handed to \<open>requests.get\<close>, in order, next to the rest
  of the outside world.
\<close>

record ('r, 'w) env =
  MARKDOWN_CHUNK_REGEX :: "'r option"
  requests_get :: "pystr \<Rightarrow> (pystr \<rightharpoonup> pystr) \<Rightarrow> int \<Rightarrow> pystr \<Rightarrow> 'w \<Rightarrow> (exn + pystr) \<times> 'w"
  write_original_html :: "pystr \<Rightarrow> pystr \<Rightarrow> pystr \<Rightarrow> 'w \<Rightarrow> 'w"
  extract_chunks_from_html :: "pystr \<Rightarrow> pystr list"
  save_chunks_to_path :: "pystr list \<Rightarrow> pystr \<Rightarrow> pystr \<Rightarrow> pystr \<Rightarrow> 'w \<Rightarrow> exn option \<times> 'w"

record 'w state =
  fetched :: "pystr list"
  world :: 'w

definition DEEPWIKI_BASE_URL :: pystr where
  "DEEPWIKI_BASE_URL = str ''https://deepwiki.com/''"

definition GITHUB_BASE_URL :: pystr where
  "GITHUB_BASE_URL = str ''https://github.com/''"

definition default_user_agent :: pystr where
  "default_user_agent = str ''Mozilla/5.0 (Windows NT 10.0; Win64; x64) AppleWebKit/537.36 (KHTML, like Gecko) Chrome/91.0.4472.124 Safari/537.36''"

text \<open>\<open>target_url.split('?', 1)[0].split('#', 1)[0]\<close>.\<close>

definition url_for_prefix_check :: "pystr \<Rightarrow> pystr" where
  "url_for_prefix_check target_url =
     takeWhile (\<lambda>c. c \<noteq> cp (CHR ''#'')) (takeWhile (\<lambda>c. c \<noteq> cp (CHR ''?'')) target_url)"

text \<open>The transformation step: the download URL, or \<open>None\<close> for an invalid URL.\<close>

definition transform_url :: "pystr \<Rightarrow> pystr option" where
  "transform_url target_url =
     (if prefix DEEPWIKI_BASE_URL (url_for_prefix_check target_url) then Some target_url
      else if prefix GITHUB_BASE_URL (url_for_prefix_check target_url) then
        (let path_and_query = drop (length GITHUB_BASE_URL) target_url
         in Some (DEEPWIKI_BASE_URL @ path_and_query))
      else None)"

text \<open>
  The first element of \<open>os.path.splitext(p)\<close> on POSIX: the last dot splits off an
  extension when it lies behind the last slash and some character between them is not
  a dot.
\<close>

definition splitext_base :: "pystr \<Rightarrow> pystr" where
  "splitext_base p =
     (let sepIndex = rfind (cp (CHR ''/'')) p;
          dotIndex = rfind (cp (CHR ''.'')) p
      in if dotIndex > sepIndex \<and>
            list_ex (\<lambda>c. c \<noteq> cp (CHR ''.''))
              (take (nat (dotIndex - (sepIndex + 1))) (drop (nat (sepIndex + 1)) p))
         then take (nat dotIndex) p else p)"

definition save_markdown_from_url ::
    "('r, 'w) env \<Rightarrow> pystr \<Rightarrow> pystr \<Rightarrow> bool \<Rightarrow> pystr option \<Rightarrow> pystr \<Rightarrow> pystr
     \<Rightarrow> pystr option \<Rightarrow> (pystr \<rightharpoonup> pystr) option \<Rightarrow> int \<Rightarrow> 'w state \<Rightarrow> bool \<times> 'w state" where
  "save_markdown_from_url ev target_url markdown_output_path keep_original_html
       original_html_save_path sep html_content_encoding markdown_file_encoding
       request_headers request_timeout st =
     (if MARKDOWN_CHUNK_REGEX ev = None then (False, st)
      else
        case transform_url target_url of
          None \<Rightarrow> (False, st)
        | Some download_url \<Rightarrow>
            let effective_headers =
                  (case request_headers of
                     None \<Rightarrow> [str ''User-Agent'' \<mapsto> default_user_agent]
                   | Some hs \<Rightarrow> [str ''User-Agent'' \<mapsto> default_user_agent] ++ hs);
                response = requests_get ev download_url effective_headers request_timeout
                             html_content_encoding (world st);
                st1 = st\<lparr>fetched := fetched st @ [download_url], world := snd response\<rparr>
            in
              case fst response of
                Inl e \<Rightarrow> (False, st1)
              | Inr html_text \<Rightarrow>
                  let save_path_html =
                        (case original_html_save_path of
                           None \<Rightarrow> splitext_base markdown_output_path @ str ''_original.html''
                         | Some sp \<Rightarrow>
                             if sp = [] then splitext_base markdown_output_path @ str ''_original.html''
                             else sp);
                      w2 = (if keep_original_html
                            then write_original_html ev save_path_html html_content_encoding
                                   html_text (world st1)
                            else world st1);
                      markdown_chunks = extract_chunks_from_html ev html_text;
                      actual_markdown_encoding =
                        (case markdown_file_encoding of
                           None \<Rightarrow> html_content_encoding
                         | Some enc \<Rightarrow> enc);
                      saved = save_chunks_to_path ev markdown_chunks markdown_output_path sep
                                actual_markdown_encoding w2
                  in (fst saved = None, st1\<lparr>world := snd saved\<rparr>))"

section \<open>The sanitizer in the words of the specification\<close>

text \<open>
  \<open>runs P s\<close> cuts \<open>s\<close> into its maximal runs of characters on which \<open>P\<close> has one value.
  \<open>replace_runs P repl s\<close> replaces every maximal run of characters satisfying \<open>P\<close> by
  \<open>repl\<close>. \<open>spec_sanitize\<close> follows the specification's sentence: replace every maximal
  run of characters outside the safe set with a single underscore, strip leading and
  trailing \<open>.\<close> and \<open>_\<close>, collapse repeated underscores to one, and give \<open>untitled\<close>
  when the input is empty or the result is empty or made of \<open>.\<close> and \<open>_\<close> only.
\<close>

fun runs :: "('a \<Rightarrow> bool) \<Rightarrow> 'a list \<Rightarrow> 'a list list" where
  "runs P [] = []"
| "runs P (x # xs) =
     (case runs P xs of
        [] \<Rightarrow> [[x]]
      | r # rs \<Rightarrow> if P x = P (hd r) then (x # r) # rs else [x] # r # rs)"

definition replace_runs :: "(nat \<Rightarrow> bool) \<Rightarrow> pystr \<Rightarrow> pystr \<Rightarrow> pystr" where
  "replace_runs P repl s = concat (map (\<lambda>r. if P (hd r) then repl else r) (runs P s))"

definition spec_sanitize :: "pystr \<Rightarrow> pystr" where
  "spec_sanitize s =
     (let replaced = replace_runs (\<lambda>c. c \<notin> set safe_chars) (str ''_'') s;
          stripped = strip (str ''._'') replaced;
          collapsed = replace_runs (\<lambda>c. c = cp (CHR ''_'')) (str ''_'') stripped
      in if s = [] \<or> collapsed = [] \<or> list_all (\<lambda>c. c \<in> set (str ''._'')) collapsed
         then str ''untitled'' else collapsed)"

section \<open>Properties of the sanitizer\<close>

lemma runs_nonempty: "r \<in> set (runs P xs) \<Longrightarrow> r \<noteq> []"
  by (induction xs arbitrary: r) (auto split: list.splits if_splits)

lemma concat_runs: "concat (runs P xs) = xs"
  by (induction xs) (auto split: list.splits)

lemma runs_uniform: "r \<in> set (runs P xs) \<Longrightarrow> x \<in> set r \<Longrightarrow> P x = P (hd r)"
proof (induction xs arbitrary: r x)
  case Nil
  then show ?case by simp
next
  case (Cons a xs)
  show ?case
  proof (cases "runs P xs")
    case Nil
    with Cons.prems show ?thesis by simp
  next
    case (Cons r0 rs)
    have ih: "\<And>y. y \<in> set r0 \<Longrightarrow> P y = P (hd r0)"
      using Cons.IH[of r0] Cons by simp
    have ih': "\<And>q y. q \<in> set rs \<Longrightarrow> y \<in> set q \<Longrightarrow> P y = P (hd q)"
      using Cons.IH Cons by simp
    show ?thesis
    proof (cases "P a = P (hd r0)")
      case True
      with Cons Cons.prems ih ih' show ?thesis by auto
    next
      case False
      with Cons Cons.prems ih ih' show ?thesis by auto
    qed
  qed
qed

text \<open>Neighbouring runs differ in \<open>P\<close>, so every run is maximal.\<close>

lemma runs_maximal: "successively (\<lambda>a b. P (hd a) \<noteq> P (hd b)) (runs P xs)"
proof (induction xs)
  case Nil
  then show ?case by simp
next
  case (Cons x xs)
  show ?case
  proof (cases "runs P xs")
    case Nil
    then show ?thesis by simp
  next
    case (Cons r rs)
    with Cons.IH show ?thesis by (cases rs) auto
  qed
qed

lemma runs_eq_Nil: "runs P xs = [] \<longleftrightarrow> xs = []"
  by (cases xs) (auto split: list.splits)

lemma runs_Cons_in:
  "P c \<Longrightarrow> runs P (c # cs) = (c # takeWhile P cs) # runs P (dropWhile P cs)"
proof (induction cs arbitrary: c)
  case Nil
  then show ?case by simp
next
  case (Cons d ds)
  show ?case
  proof (cases "P d")
    case True
    with Cons.IH[of d] Cons.prems show ?thesis by simp
  next
    case False
    with Cons.prems show ?thesis
      by (cases "runs P (d # ds)") (auto simp: runs_eq_Nil split: list.splits if_splits)
  qed
qed

lemma hd_runs: "runs P (d # ds) = r # rs \<Longrightarrow> hd r = d"
  by (auto split: list.splits if_splits)

lemma replace_runs_Nil: "replace_runs P repl [] = []"
  by (simp add: replace_runs_def)

lemma replace_runs_in:
  "P c \<Longrightarrow> replace_runs P repl (c # cs) = repl @ replace_runs P repl (dropWhile P cs)"
  by (simp add: replace_runs_def runs_Cons_in del: runs.simps)

lemma replace_runs_out:
  "\<not> P c \<Longrightarrow> replace_runs P repl (c # cs) = c # replace_runs P repl cs"
  by (cases cs) (auto simp: replace_runs_def dest: hd_runs split: list.splits)

lemma re_sub_class_plus_runs: "re_sub_class_plus P repl s = replace_runs P repl s"
  by (induction P repl s rule: re_sub_class_plus.induct)
     (simp_all add: replace_runs_Nil replace_runs_in replace_runs_out)

lemma sanitize_refines: "sanitize_filename_component s = spec_sanitize s"
  by (auto simp: sanitize_filename_component_def spec_sanitize_def re_sub_class_plus_runs
        Let_def replace_runs_Nil strip_def lstrip_def)

lemma set_re_sub_class_plus:
  "set (re_sub_class_plus cls repl s) \<subseteq> set repl \<union> {c \<in> set s. \<not> cls c}"
  by (induction cls repl s rule: re_sub_class_plus.induct) (auto dest: set_dropWhileD)

lemma set_strip: "set (strip chars s) \<subseteq> set s"
proof
  fix x
  assume "x \<in> set (strip chars s)"
  then have "x \<in> set (dropWhile (\<lambda>c. c \<in> set chars) (rev (dropWhile (\<lambda>c. c \<in> set chars) s)))"
    by (simp add: strip_def lstrip_def)
  then have "x \<in> set (rev (dropWhile (\<lambda>c. c \<in> set chars) s))"
    by (rule set_dropWhileD)
  then have "x \<in> set (dropWhile (\<lambda>c. c \<in> set chars) s)" by simp
  then show "x \<in> set s" by (rule set_dropWhileD)
qed

lemma last_dropWhile_keep: "dropWhile P xs \<noteq> [] \<Longrightarrow> last (dropWhile P xs) = last xs"
  by (induction xs) (auto split: if_splits)

lemma hd_strip: "strip chars s \<noteq> [] \<Longrightarrow> hd (strip chars s) \<notin> set chars"
proof -
  assume ne: "strip chars s \<noteq> []"
  let ?P = "\<lambda>c. c \<in> set chars"
  let ?t = "dropWhile ?P s"
  let ?u = "dropWhile ?P (rev ?t)"
  from ne have u: "?u \<noteq> []" by (simp add: strip_def lstrip_def)
  have t: "?t \<noteq> []"
  proof
    assume "?t = []"
    then have "?u = []" by (simp only: rev.simps dropWhile.simps)
    with u show False ..
  qed
  have "hd (strip chars s) = last ?u" using u by (simp add: strip_def lstrip_def hd_rev)
  also have "\<dots> = last (rev ?t)" using u by (rule last_dropWhile_keep)
  also have "\<dots> = hd ?t" using t by (simp add: last_rev)
  finally show ?thesis using hd_dropWhile[OF t] by simp
qed

lemma last_strip: "strip chars s \<noteq> [] \<Longrightarrow> last (strip chars s) \<notin> set chars"
proof -
  assume ne: "strip chars s \<noteq> []"
  let ?P = "\<lambda>c. c \<in> set chars"
  let ?u = "dropWhile ?P (rev (dropWhile ?P s))"
  from ne have u: "?u \<noteq> []" by (simp add: strip_def lstrip_def)
  have "last (strip chars s) = hd ?u" using u by (simp add: strip_def lstrip_def last_rev)
  then show ?thesis using hd_dropWhile[OF u] by simp
qed

lemma collapse_ends:
  "s \<noteq> [] \<Longrightarrow>
   re_sub_class_plus (\<lambda>c. c = u) [u] s \<noteq> [] \<and>
   hd (re_sub_class_plus (\<lambda>c. c = u) [u] s) = hd s \<and>
   last (re_sub_class_plus (\<lambda>c. c = u) [u] s) = last s"
proof (induction "\<lambda>c. c = u" "[u]" s rule: re_sub_class_plus.induct)
  case 1
  then show ?case by simp
next
  case (2 c cs)
  show ?case
  proof (cases "c = u")
    case True
    show ?thesis
    proof (cases "dropWhile (\<lambda>c. c = u) cs = []")
      case True
      then have "\<forall>x\<in>set cs. x = u" by (simp add: dropWhile_eq_Nil_conv)
      then have l: "last (c # cs) = u" using \<open>c = u\<close>
        by (metis last_in_set list.distinct(1) set_ConsD)
      have "re_sub_class_plus (\<lambda>c. c = u) [u] (c # cs) = [u]"
        using \<open>c = u\<close> True by (simp del: dropWhile_eq_Nil_conv)
      with l \<open>c = u\<close> show ?thesis by simp
    next
      case False
      with 2(1)[OF \<open>c = u\<close>] \<open>c = u\<close> show ?thesis
        by (auto simp: last_dropWhile_keep)
    qed
  next
    case False
    with 2(2) show ?thesis by (cases cs) auto
  qed
qed

lemma underscore_safe: "cp (CHR ''_'') \<in> set safe_chars"
  by (simp add: safe_chars_def)

lemma untitled_safe: "set (str ''untitled'') \<subseteq> set safe_chars"
  by (simp add: safe_chars_def)

lemma untitled_ok:
  "str ''untitled'' \<noteq> [] \<and> set (str ''untitled'') \<subseteq> set safe_chars \<and>
   hd (str ''untitled'') \<notin> set (str ''._'') \<and> last (str ''untitled'') \<notin> set (str ''._'')"
  using untitled_safe by simp

lemma sanitize_shape:
  "sanitize_filename_component s \<noteq> [] \<and>
   set (sanitize_filename_component s) \<subseteq> set safe_chars \<and>
   hd (sanitize_filename_component s) \<notin> set (str ''._'') \<and>
   last (sanitize_filename_component s) \<notin> set (str ''._'')"
proof -
  let ?n1 = "re_sub_class_plus (\<lambda>c. c \<notin> set safe_chars) (str ''_'') s"
  let ?n2 = "strip (str ''._'') ?n1"
  let ?n3 = "re_sub_class_plus (\<lambda>c. c = cp (CHR ''_'')) (str ''_'') ?n2"
  show ?thesis
  proof (cases "s = [] \<or> ?n3 = [] \<or> list_all (\<lambda>c. c \<in> set (str ''._'')) ?n3")
    case True
    then have "sanitize_filename_component s = str ''untitled''"
      by (auto simp: sanitize_filename_component_def Let_def)
    then show ?thesis using untitled_ok by simp
  next
    case False
    then have eq: "sanitize_filename_component s = ?n3"
      by (auto simp: sanitize_filename_component_def Let_def)
    from False have n3: "?n3 \<noteq> []" by simp
    then have n2: "?n2 \<noteq> []" by auto
    have s1: "set ?n1 \<subseteq> set safe_chars"
      using set_re_sub_class_plus[of "\<lambda>c. c \<notin> set safe_chars" "str ''_''" s]
      using underscore_safe by auto
    have s2: "set ?n2 \<subseteq> set safe_chars" using s1 set_strip[of "str ''._''" ?n1] by blast
    have s3: "set ?n3 \<subseteq> set safe_chars"
      using s2 set_re_sub_class_plus[of "\<lambda>c. c = cp (CHR ''_'')" "str ''_''" ?n2]
      using underscore_safe by auto
    from collapse_ends[OF n2, of "cp (CHR ''_'')"]
    have "hd ?n3 = hd ?n2" "last ?n3 = last ?n2" by simp_all
    with hd_strip[OF n2] last_strip[OF n2] n3 s3 eq show ?thesis by simp
  qed
qed

text \<open>
  C5. For every input string, \<open>sanitize_filename_component\<close> computes what the
  specification describes (every maximal run of characters outside the safe set becomes
  one underscore, leading and trailing \<open>.\<close> and \<open>_\<close> are stripped, repeated underscores
  collapse to one, and \<open>untitled\<close> stands in for an empty input and for a result that is
  empty or made of \<open>.\<close> and \<open>_\<close> only); its output is never empty, holds only characters
  of the safe set, and neither starts nor ends with \<open>.\<close> or \<open>_\<close>.
\<close>

theorem sanitize_filename_component_spec:
  "sanitize_filename_component s = spec_sanitize s \<and>
   sanitize_filename_component s \<noteq> [] \<and>
   set (sanitize_filename_component s) \<subseteq> set safe_chars \<and>
   hd (sanitize_filename_component s) \<notin> set (str ''._'') \<and>
   last (sanitize_filename_component s) \<notin> set (str ''._'')"
  using sanitize_refines[of s] sanitize_shape[of s] by blast

theorem sanitize_filename_component_spec_witness:
  "sanitize_filename_component (str '' a  b__c.. '') = str ''a_b_c'' \<and>
   spec_sanitize (str '' a  b__c.. '') = str ''a_b_c'' \<and>
   spec_sanitize (str ''._'') = str ''untitled''"
proof -
  have e: "sanitize_filename_component (str '' a  b__c.. '') = str ''a_b_c''" by code_simp
  have u: "sanitize_filename_component (str ''._'') = str ''untitled''" by code_simp
  from sanitize_filename_component_spec[of "str '' a  b__c.. ''"]
       sanitize_filename_component_spec[of "str ''._''"] e u
  show ?thesis by simp
qed

section \<open>Properties of save_markdown_from_url\<close>

lemma url_for_prefix_check_prefix: "prefix (url_for_prefix_check u) u"
proof -
  have "prefix (url_for_prefix_check u) (takeWhile (\<lambda>c. c \<noteq> cp (CHR ''?'')) u)"
    unfolding url_for_prefix_check_def by (rule takeWhile_is_prefix)
  moreover have "prefix (takeWhile (\<lambda>c. c \<noteq> cp (CHR ''?'')) u) u"
    by (rule takeWhile_is_prefix)
  ultimately show ?thesis by (rule prefix_order.trans)
qed

lemma base_urls_exclusive:
  "prefix GITHUB_BASE_URL s \<Longrightarrow> \<not> prefix DEEPWIKI_BASE_URL s"
  by (auto simp: prefix_def GITHUB_BASE_URL_def DEEPWIKI_BASE_URL_def)

lemma transform_url_github_eq:
  assumes "prefix GITHUB_BASE_URL (url_for_prefix_check target_url)"
  shows "transform_url target_url =
         Some (DEEPWIKI_BASE_URL @ drop (length GITHUB_BASE_URL) target_url)"
  using assms base_urls_exclusive[OF assms] by (simp add: transform_url_def)

lemma transform_url_invalid:
  "\<not> prefix DEEPWIKI_BASE_URL (url_for_prefix_check target_url) \<Longrightarrow>
   \<not> prefix GITHUB_BASE_URL (url_for_prefix_check target_url) \<Longrightarrow>
   transform_url target_url = None"
  by (simp add: transform_url_def)

lemma save_markdown_fetched:
  "MARKDOWN_CHUNK_REGEX ev \<noteq> None \<Longrightarrow> transform_url target_url = Some download_url \<Longrightarrow>
   fetched (snd (save_markdown_from_url ev target_url mp keep hp sp henc menc hdrs tmo st))
   = fetched st @ [download_url]"
  by (simp add: save_markdown_from_url_def Let_def split: sum.splits)

text \<open>
  C1. For every input URL string whose form without query string and fragment starts
  with \<open>https://github.com/\<close>, the input itself starts with that base; the
  transformation step gives \<open>https://deepwiki.com/\<close> followed by everything of the
  input behind the base (path, query string and fragment, unchanged); and, the pattern
  being compiled, this is the URL that \<open>save_markdown_from_url\<close> requests. The witness
  is \<open>https://github.com/Org/Repo\<close>, which gives \<open>https://deepwiki.com/Org/Repo\<close>.
\<close>

theorem transform_url_github:
  assumes "prefix GITHUB_BASE_URL (url_for_prefix_check target_url)"
  shows "target_url = GITHUB_BASE_URL @ drop (length GITHUB_BASE_URL) target_url \<and>
         transform_url target_url =
           Some (DEEPWIKI_BASE_URL @ drop (length GITHUB_BASE_URL) target_url) \<and>
         (MARKDOWN_CHUNK_REGEX ev \<noteq> None \<longrightarrow>
            fetched (snd (save_markdown_from_url ev target_url mp keep hp sp henc menc hdrs tmo st))
            = fetched st @ [DEEPWIKI_BASE_URL @ drop (length GITHUB_BASE_URL) target_url])"
proof -
  have "prefix GITHUB_BASE_URL target_url"
    using assms url_for_prefix_check_prefix[of target_url] by (rule prefix_order.trans)
  then have 1: "target_url = GITHUB_BASE_URL @ drop (length GITHUB_BASE_URL) target_url"
    by (auto simp: prefix_def)
  note 2 = transform_url_github_eq[OF assms]
  show ?thesis
  proof (intro conjI impI)
    show "target_url = GITHUB_BASE_URL @ drop (length GITHUB_BASE_URL) target_url" by (rule 1)
    show "transform_url target_url =
          Some (DEEPWIKI_BASE_URL @ drop (length GITHUB_BASE_URL) target_url)" by (rule 2)
    assume r: "MARKDOWN_CHUNK_REGEX ev \<noteq> None"
    show "fetched (snd (save_markdown_from_url ev target_url mp keep hp sp henc menc hdrs tmo st))
          = fetched st @ [DEEPWIKI_BASE_URL @ drop (length GITHUB_BASE_URL) target_url]"
      by (rule save_markdown_fetched[OF r 2])
  qed
qed

theorem transform_url_github_witness:
  "prefix GITHUB_BASE_URL (url_for_prefix_check (str ''https://github.com/Org/Repo'')) \<and>
   transform_url (str ''https://github.com/Org/Repo'') = Some (str ''https://deepwiki.com/Org/Repo'') \<and>
   transform_url (str ''https://github.com/Org/Repo?tab=a#b'') =
     Some (str ''https://deepwiki.com/Org/Repo?tab=a#b'')"
proof -
  have h1: "prefix GITHUB_BASE_URL (url_for_prefix_check (str ''https://github.com/Org/Repo''))"
    by (simp add: GITHUB_BASE_URL_def url_for_prefix_check_def)
  have h2: "prefix GITHUB_BASE_URL (url_for_prefix_check (str ''https://github.com/Org/Repo?tab=a#b''))"
    by (simp add: GITHUB_BASE_URL_def url_for_prefix_check_def)
  from transform_url_github[OF h1, THEN conjunct2, THEN conjunct1]
       transform_url_github[OF h2, THEN conjunct2, THEN conjunct1] h1
  show ?thesis by (simp add: GITHUB_BASE_URL_def DEEPWIKI_BASE_URL_def)
qed

text \<open>
  C2. For every input URL string whose form without query string and fragment starts
  with neither base URL, \<open>save_markdown_from_url\<close> returns \<open>False\<close> and leaves the
  state as it was: no URL is requested and nothing outside is touched.
\<close>

theorem save_markdown_from_url_invalid_url:
  assumes "\<not> prefix DEEPWIKI_BASE_URL (url_for_prefix_check target_url)"
      and "\<not> prefix GITHUB_BASE_URL (url_for_prefix_check target_url)"
  shows "save_markdown_from_url ev target_url mp keep hp sp henc menc hdrs tmo st = (False, st)"
  using transform_url_invalid[OF assms] by (simp add: save_markdown_from_url_def)

theorem save_markdown_from_url_invalid_url_witness:
  "\<not> prefix DEEPWIKI_BASE_URL (url_for_prefix_check (str ''http://github.com/Org/Repo'')) \<and>
   \<not> prefix GITHUB_BASE_URL (url_for_prefix_check (str ''http://github.com/Org/Repo'')) \<and>
   save_markdown_from_url
     \<lparr>MARKDOWN_CHUNK_REGEX = Some (),
      requests_get = (\<lambda>u h t e w. (Inr (str ''page''), w)),
      write_original_html = (\<lambda>p e h w. w),
      extract_chunks_from_html = (\<lambda>h. [h]),
      save_chunks_to_path = (\<lambda>cs p s e w. (None, w))\<rparr>
     (str ''http://github.com/Org/Repo'') (str ''out.md'') False None (str ''---'') (str ''utf-8'') None None 30
     \<lparr>fetched = [], world = ()\<rparr>
   = (False, \<lparr>fetched = [], world = ()\<rparr>)"
proof -
  have h1: "\<not> prefix DEEPWIKI_BASE_URL (url_for_prefix_check (str ''http://github.com/Org/Repo''))"
    by (simp add: DEEPWIKI_BASE_URL_def url_for_prefix_check_def)
  have h2: "\<not> prefix GITHUB_BASE_URL (url_for_prefix_check (str ''http://github.com/Org/Repo''))"
    by (simp add: GITHUB_BASE_URL_def url_for_prefix_check_def)
  from save_markdown_from_url_invalid_url[OF h1 h2] h1 h2 show ?thesis by simp
qed

text \<open>
  C8. When the extraction pattern did not compile (\<open>MARKDOWN_CHUNK_REGEX\<close> is \<open>None\<close>),
  \<open>save_markdown_from_url\<close> returns \<open>False\<close> for every input and leaves the state as it
  was: the URL is not transformed, no URL is requested and nothing outside is touched.
\<close>

theorem save_markdown_from_url_no_regex:
  assumes "MARKDOWN_CHUNK_REGEX ev = None"
  shows "save_markdown_from_url ev target_url mp keep hp sp henc menc hdrs tmo st = (False, st)"
  using assms by (simp add: save_markdown_from_url_def)

theorem save_markdown_from_url_no_regex_witness:
  "MARKDOWN_CHUNK_REGEX
     \<lparr>MARKDOWN_CHUNK_REGEX = (None :: unit option),
      requests_get = (\<lambda>u h t e w. (Inr (str ''page''), w)),
      write_original_html = (\<lambda>p e h w. w),
      extract_chunks_from_html = (\<lambda>h. [h]),
      save_chunks_to_path = (\<lambda>cs p s e w. (None, w))\<rparr> = None \<and>
   save_markdown_from_url
     \<lparr>MARKDOWN_CHUNK_REGEX = (None :: unit option),
      requests_get = (\<lambda>u h t e w. (Inr (str ''page''), w)),
      write_original_html = (\<lambda>p e h w. w),
      extract_chunks_from_html = (\<lambda>h. [h]),
      save_chunks_to_path = (\<lambda>cs p s e w. (None, w))\<rparr>
     (str ''https://github.com/Org/Repo'') (str ''out.md'') True None (str ''---'') (str ''utf-8'') None None 30
     \<lparr>fetched = [], world = ()\<rparr>
   = (False, \<lparr>fetched = [], world = ()\<rparr>)"
proof -
  let ?ev = "\<lparr>MARKDOWN_CHUNK_REGEX = (None :: unit option),
      requests_get = (\<lambda>u h t e w. (Inr (str ''page''), w)),
      write_original_html = (\<lambda>p e h w. w),
      extract_chunks_from_html = (\<lambda>h. [h]),
      save_chunks_to_path = (\<lambda>cs p s e (w::unit). (None :: exn option, w))\<rparr>"
  have h: "MARKDOWN_CHUNK_REGEX ?ev = None" by simp
  from save_markdown_from_url_no_regex[OF h] h show ?thesis by simp
qed

section \<open>Properties of derive_filename_from_url\<close>







text \<open>
  \<open>_checknetloc\<close> at work: when NFKC normalization takes the fullwidth solidus
  \<open>U+FF0F\<close> to \<open>/\<close>, as \<open>unicodedata\<close> does, the string made of \<open>//\<close> and that
  code point is rejected, though it has no square bracket.
\<close>

lemma urlparse_fullwidth_solidus:
  assumes "normalize_nfkc lib [0xFF0F] = str ''/''"
  shows "urlparse lib (str ''//'' @ [0xFF0F]) = Inl ValueError"
  using assms
  by (simp add: urlparse_def Let_def find_def find_from_def splitnetloc_def
        checknetloc_raises_def isascii_def c0_control_or_space_def)



lemma derive_archive:
  "derive_filename_from_url lib (str ''https://deepwiki.com/a/b/archive.tar.gz'') (str ''.md'') =
   Inr (str ''archive.tar.md'')"
  by code_simp

text \<open>
  C3, as amended. \<open>derive_filename_from_url\<close> applied to
  \<open>https://deepwiki.com/a/b/archive.tar.gz\<close> with extension \<open>.md\<close> returns
  \<open>archive.tar.md\<close>: the stem is \<open>archive.tar\<close>, and the sanitizer keeps its dot,
  which is a character of the safe set.
\<close>

theorem derive_filename_archive_tar_gz:
  "derive_filename_from_url lib (str ''https://deepwiki.com/a/b/archive.tar.gz'') (str ''.md'') =
   Inr (str ''archive.tar.md'')"
  by (rule derive_archive)

text \<open>C3 as stated fails: the result is not \<open>archive_tar.md\<close>.\<close>

theorem derive_filename_archive_tar_gz_counterexample:
  "derive_filename_from_url plain_stdlib (str ''https://deepwiki.com/a/b/archive.tar.gz'') (str ''.md'')
   \<noteq> Inr (str ''archive_tar.md'')"
  using derive_archive[of plain_stdlib] by simp

text \<open>
  C4, as amended. For every URL string and every extension string, beginning with
  \<open>.\<close> or not, \<open>derive_filename_from_url\<close> appends the extension exactly as it is
  given to the truncated sanitized stem, which does not depend on the extension: the
  result is the result for the empty extension followed by the extension, and no \<open>.\<close>
  is inserted. The function raises for an extension exactly when it raises for the empty
  one.
\<close>

theorem derive_filename_extension_verbatim:
  "derive_filename_from_url lib url_str extension =
   (case derive_filename_from_url lib url_str [] of
      Inl e \<Rightarrow> Inl e
    | Inr stem_part \<Rightarrow> Inr (stem_part @ extension))"
  by (simp add: derive_filename_from_url_def split: sum.splits)

text \<open>
  C4 as stated fails: with the extension \<open>md\<close> the URL \<open>https://deepwiki.com/a/b\<close>
  gives \<open>bmd\<close>, which does not end with \<open>.md\<close>.
\<close>

theorem derive_filename_extension_counterexample:
  "derive_filename_from_url plain_stdlib (str ''https://deepwiki.com/a/b'') (str ''md'') = Inr (str ''bmd'') \<and>
   \<not> suffix (str ''.'' @ str ''md'') (str ''bmd'')"
proof -
  have "derive_filename_from_url plain_stdlib (str ''https://deepwiki.com/a/b'') (str ''md'') = Inr (str ''bmd'')"
    by code_simp
  moreover have "\<not> suffix (str ''.'' @ str ''md'') (str ''bmd'')"
    by (simp add: suffix_def Cons_eq_append_conv append_eq_Cons_conv)
  ultimately show ?thesis by simp
qed




section \<open>Properties of save_chunks_to_dir\<close>

lemma save_chunk_snd:
  "snd (save_chunk io od dv ext i c st) = (snd st \<and> chunk_saved io dv i c)"
  by (auto simp: save_chunk_def chunk_saved_def output_file_path_def Let_def
           split: sum.splits io_outcome.splits)

lemma save_chunk_other:
  "\<not> writes_to io od dv ext i c p \<Longrightarrow> fst (save_chunk io od dv ext i c st) p = fst st p"
  by (auto simp: save_chunk_def writes_to_def split: sum.splits io_outcome.splits)

lemma save_chunk_written:
  "output_file_path od dv ext i c = Inr p \<Longrightarrow> chunk_saved io dv i c \<Longrightarrow>
   fst (save_chunk io od dv ext i c st) p = Some c"
  by (auto simp: save_chunk_def chunk_saved_def output_file_path_def Let_def
           split: sum.splits io_outcome.splits)

lemma save_loop_snd:
  "snd (save_loop io od dv ext i cs st) =
   (snd st \<and> (\<forall>k<length cs. chunk_saved io dv (i + k) (cs ! k)))"
proof (induction cs arbitrary: i st)
  case Nil
  then show ?case by simp
next
  case (Cons c cs)
  show ?case
    by (auto simp: Cons.IH save_chunk_snd less_Suc_eq_0_disj)
qed

lemma save_loop_other:
  "(\<forall>k<length cs. \<not> writes_to io od dv ext (i + k) (cs ! k) p) \<Longrightarrow>
   fst (save_loop io od dv ext i cs st) p = fst st p"
proof (induction cs arbitrary: i st)
  case Nil
  then show ?case by simp
next
  case (Cons c cs)
  from Cons.prems have here: "\<not> writes_to io od dv ext i c p" by fastforce
  from Cons.prems have rest:
    "\<forall>k<length cs. \<not> writes_to io od dv ext (Suc i + k) (cs ! k) p" by fastforce
  show ?case using Cons.IH[OF rest] save_chunk_other[OF here] by simp
qed

lemma save_loop_written:
  "k < length cs \<Longrightarrow>
   output_file_path od dv ext (i + k) (cs ! k) = Inr p \<Longrightarrow>
   chunk_saved io dv (i + k) (cs ! k) \<Longrightarrow>
   (\<forall>j<length cs. j \<noteq> k \<longrightarrow> \<not> writes_to io od dv ext (i + j) (cs ! j) p) \<Longrightarrow>
   fst (save_loop io od dv ext i cs st) p = Some (cs ! k)"
proof (induction cs arbitrary: i k st)
  case Nil
  then show ?case by simp
next
  case (Cons c cs)
  show ?case
  proof (cases k)
    case 0
    from Cons.prems(4) 0 have rest:
      "\<forall>j<length cs. \<not> writes_to io od dv ext (Suc i + j) (cs ! j) p" by fastforce
    from Cons.prems(2,3) 0 have "fst (save_chunk io od dv ext i c st) p = Some c"
      by (simp add: save_chunk_written)
    with save_loop_other[OF rest] 0 show ?thesis by simp
  next
    case (Suc k')
    from Cons.prems(1) Suc have 1: "k' < length cs" by simp
    from Cons.prems(2) Suc have 2: "output_file_path od dv ext (Suc i + k') (cs ! k') = Inr p"
      by simp
    from Cons.prems(3) Suc have 3: "chunk_saved io dv (Suc i + k') (cs ! k')" by simp
    from Cons.prems(4) Suc have 4:
      "\<forall>j<length cs. j \<noteq> k' \<longrightarrow> \<not> writes_to io od dv ext (Suc i + j) (cs ! j) p"
      by fastforce
    from Cons.IH[OF 1 2 3 4] Suc show ?thesis by simp
  qed
qed




lemma save_chunks_to_dir_snd:
  "snd (save_chunks_to_dir io chunks od dv ext fs) =
   (\<forall>k<length chunks. chunk_saved io dv k (chunks ! k))"
  by (simp add: save_chunks_to_dir_def save_loop_snd)

lemma save_chunks_to_dir_written:
  "k < length chunks \<Longrightarrow>
   output_file_path od dv ext k (chunks ! k) = Inr p \<Longrightarrow>
   chunk_saved io dv k (chunks ! k) \<Longrightarrow>
   (\<forall>j<length chunks. j \<noteq> k \<longrightarrow> \<not> writes_to io od dv ext j (chunks ! j) p) \<Longrightarrow>
   fst (save_chunks_to_dir io chunks od dv ext fs) p = Some (chunks ! k)"
  using save_loop_written[of k chunks od dv ext 0 p io "(fs, True)"]
  by (auto simp: save_chunks_to_dir_def)


lemma str_of_nat_small: "str_of_nat 1 = str ''1'' \<and> str_of_nat 2 = str ''2'' \<and> str_of_nat 10 = str ''10''"
  by code_simp

text \<open>
  C7. For every list of chunks, \<open>save_chunks_to_dir\<close> returns; a chunk that fails does
  not keep the others from being processed: every chunk that is saved has its file with
  its content in the directory afterwards, whatever happened to the other chunks, as long
  as no other chunk writes to the same path. The returned flag is \<open>True\<close> exactly when
  every chunk was saved, and the empty list gives \<open>True\<close>. The witness is the scenario
  of three chunks whose second write fails.
\<close>

theorem save_chunks_to_dir_result:
  "save_chunks_to_dir io [] od dv ext fs = (fs, True) \<and>
   snd (save_chunks_to_dir io chunks od dv ext fs) =
     (\<forall>k<length chunks. chunk_saved io dv k (chunks ! k)) \<and>
   (\<forall>k p. k < length chunks \<and> chunk_saved io dv k (chunks ! k) \<and>
          output_file_path od dv ext k (chunks ! k) = Inr p \<and>
          (\<forall>j<length chunks. j \<noteq> k \<longrightarrow> \<not> writes_to io od dv ext j (chunks ! j) p) \<longrightarrow>
      fst (save_chunks_to_dir io chunks od dv ext fs) p = Some (chunks ! k))"
proof (intro conjI allI impI)
  show "save_chunks_to_dir io [] od dv ext fs = (fs, True)"
    by (simp add: save_chunks_to_dir_def)
  show "snd (save_chunks_to_dir io chunks od dv ext fs) =
        (\<forall>k<length chunks. chunk_saved io dv k (chunks ! k))"
    by (rule save_chunks_to_dir_snd)
next
  fix k p
  assume "k < length chunks \<and> chunk_saved io dv k (chunks ! k) \<and>
          output_file_path od dv ext k (chunks ! k) = Inr p \<and>
          (\<forall>j<length chunks. j \<noteq> k \<longrightarrow> \<not> writes_to io od dv ext j (chunks ! j) p)"
  then show "fst (save_chunks_to_dir io chunks od dv ext fs) p = Some (chunks ! k)"
    using save_chunks_to_dir_written[of k chunks od dv ext p io fs] by blast
qed

theorem save_chunks_to_dir_result_witness:
  "snd (save_chunks_to_dir (\<lambda>i. if i = 1 then RaisesBeforeCreate OSError else Written)
          [str ''A'', str ''B'', str ''C''] (\<lambda>n. n) (\<lambda>c i. Inr c) (str ''.md'') Map.empty) = False \<and>
   fst (save_chunks_to_dir (\<lambda>i. if i = 1 then RaisesBeforeCreate OSError else Written)
          [str ''A'', str ''B'', str ''C''] (\<lambda>n. n) (\<lambda>c i. Inr c) (str ''.md'') Map.empty)
       (str ''A.md'') = Some (str ''A'') \<and>
   fst (save_chunks_to_dir (\<lambda>i. if i = 1 then RaisesBeforeCreate OSError else Written)
          [str ''A'', str ''B'', str ''C''] (\<lambda>n. n) (\<lambda>c i. Inr c) (str ''.md'') Map.empty)
       (str ''C.md'') = Some (str ''C'')"
proof -
  let ?io = "\<lambda>i::nat. if i = 1 then RaisesBeforeCreate OSError else Written"
  let ?cs = "[str ''A'', str ''B'', str ''C'']"
  let ?od = "\<lambda>n::pystr. n"
  let ?dv = "\<lambda>c (i::nat). Inr c :: exn + pystr"
  note t = save_chunks_to_dir_result[of ?io ?od ?dv "str ''.md''" Map.empty ?cs]
  have f: "snd (save_chunks_to_dir ?io ?cs ?od ?dv (str ''.md'') Map.empty) = False"
    using t by (auto simp: chunk_saved_def)
  have a: "fst (save_chunks_to_dir ?io ?cs ?od ?dv (str ''.md'') Map.empty) (str ''A.md'') = Some (?cs ! 0)"
    using t by (auto simp: chunk_saved_def output_file_path_def actual_extension_def
                  writes_to_def less_Suc_eq numeral_3_eq_3)
  have c: "fst (save_chunks_to_dir ?io ?cs ?od ?dv (str ''.md'') Map.empty) (str ''C.md'') = Some (?cs ! 2)"
    using t by (auto simp: chunk_saved_def output_file_path_def actual_extension_def
                  writes_to_def less_Suc_eq numeral_3_eq_3)
  from f a c show ?thesis by simp
qed

text \<open>
  C9. For every chunk at a 0-based index \<open>k\<close> for which the deriver returns the empty
  string, the path of the chunk's file is the directory joined with \<open>chapter_\<close>, the
  decimal digits of \<open>k + 1\<close> and the extension; when the write succeeds and no other
  chunk writes to that path, the directory holds the chunk's content there.
\<close>

theorem save_chunks_to_dir_chapter_fallback:
  assumes "k < length chunks" and "dv (chunks ! k) k = Inr []"
  shows "output_file_path od dv ext k (chunks ! k) =
           Inr (od (((str ''chapter_'') @ str_of_nat (k + 1)) @ actual_extension ext)) \<and>
         (io k = Written \<and>
          (\<forall>j<length chunks. j \<noteq> k \<longrightarrow>
             \<not> writes_to io od dv ext j (chunks ! j)
                 (od (((str ''chapter_'') @ str_of_nat (k + 1)) @ actual_extension ext))) \<longrightarrow>
          fst (save_chunks_to_dir io chunks od dv ext fs)
            (od (((str ''chapter_'') @ str_of_nat (k + 1)) @ actual_extension ext)) = Some (chunks ! k))"
proof -
  let ?p = "od (((str ''chapter_'') @ str_of_nat (k + 1)) @ actual_extension ext)"
  have p: "output_file_path od dv ext k (chunks ! k) = Inr ?p"
    using assms(2) by (simp add: output_file_path_def)
  have "fst (save_chunks_to_dir io chunks od dv ext fs) ?p = Some (chunks ! k)"
    if "io k = Written"
       "\<forall>j<length chunks. j \<noteq> k \<longrightarrow> \<not> writes_to io od dv ext j (chunks ! j) ?p"
  proof -
    have "chunk_saved io dv k (chunks ! k)"
      using assms(2) that(1) by (simp add: chunk_saved_def)
    then show ?thesis
      using save_chunks_to_dir_written[OF assms(1) p _ that(2)] by simp
  qed
  with p show ?thesis by blast
qed

theorem save_chunks_to_dir_chapter_fallback_witness:
  "(1::nat) < length [str ''x'', str ''y''] \<and>
   (\<lambda>c (i::nat). Inr [] :: exn + pystr) ([str ''x'', str ''y''] ! 1) 1 = Inr [] \<and>
   output_file_path (\<lambda>n. n) (\<lambda>c i. Inr []) (str ''md'') 1 (str ''y'') = Inr (str ''chapter_2.md'') \<and>
   fst (save_chunks_to_dir (\<lambda>i. Written) [str ''x'', str ''y''] (\<lambda>n. n) (\<lambda>c i. Inr []) (str ''md'')
          Map.empty) (str ''chapter_2.md'') = Some (str ''y'')"
proof -
  let ?cs = "[str ''x'', str ''y'']"
  let ?od = "\<lambda>n::pystr. n"
  let ?dv = "\<lambda>c (i::nat). Inr [] :: exn + pystr"
  have h1: "(1::nat) < length ?cs" by simp
  have h2: "?dv (?cs ! 1) 1 = Inr []" by simp
  have s: "str_of_nat (Suc 0) = str ''1''" "str_of_nat (Suc (Suc 0)) = str ''2''" by code_simp+
  from save_chunks_to_dir_chapter_fallback[OF h1 h2, of ?od "str ''md''" "\<lambda>i. Written" Map.empty]
  show ?thesis
    by (auto simp: s actual_extension_def writes_to_def output_file_path_def less_Suc_eq)
qed




end
